theory Spec2Isabelle
  imports Main "HOL-Library.Word" "HOL-Library.Signed_Division"
begin

unbundle bit_operations_syntax

section \<open>The adaptive password hasher (hasher.go)\<close>

text \<open>
  The embedding follows \<^verbatim>\<open>hasher.go\<close> function by function. Go's \<^verbatim>\<open>int\<close> and
  \<^verbatim>\<open>uint\<close> are taken at their 64-bit width (amd64, arm64) and modelled by \<^typ>\<open>int\<close>:
  with arguments in the 64-bit range no addition or subtraction of the code leaves that
  range, and the two places that cut a value down, the conversion \<^verbatim>\<open>uint(x)\<close> and the
  conversion \<^verbatim>\<open>byte(x)\<close>, are written out. Division and remainder truncate towards zero
  (\<open>sdiv\<close>, \<open>smod\<close>). A byte slice is the list of its elements, its capacity equal to
  its length; with a larger capacity the slice expression \<^verbatim>\<open>hash[13:13+saltLen]\<close> of
  \<^verbatim>\<open>Verify\<close> can succeed beyond the length, and then the remaining length is negative and
  the key-size check that follows returns false, which is also what the recovered panic
  gives. A run-time panic is a value of type \<open>panic\<close>. In \<open>make_bytes\<close>, and so in
  \<open>hasher_Hash\<close>, \<open>Verify_body\<close> and \<open>hasher_Verify\<close>, memory suffices for every allocation;
  \<open>Verify_body_in\<close> and \<open>hasher_Verify_in\<close> are the same code on a machine that can
  allocate a bounded number of bytes, where an allocation beyond the bound ends the process
  with the run-time's fatal out-of-memory error, which no deferred function recovers. The
  diagnostic \<^verbatim>\<open>fmt.Printf\<close> of \<^verbatim>\<open>Verify\<close> writes to standard output and has no part in any
  result, so it is left out.

  The packages the code imports are parameters: \<^verbatim>\<open>pbkdf2.Key\<close> is an argument \<open>Key\<close>
  of the functions that call it, and the system's entropy source behind \<^verbatim>\<open>rand.Read\<close>
  is an argument \<open>src\<close>.
\<close>

subsection \<open>Data\<close>

type_synonym byte = "8 word"

text \<open>The three errors of \<^verbatim>\<open>New\<close>.\<close>

datatype config_error = ErrInvalidIterationCount | ErrInvalidSaltSize | ErrInvalidKeySize

text \<open>A value of Go type \<^verbatim>\<open>func() hash.Hash\<close>: nil, \<^verbatim>\<open>sha256.New\<close> or \<^verbatim>\<open>sha512.New\<close>.\<close>

datatype hash_func = nil_func | sha256_New | sha512_New

text \<open>The run-time panics the code can raise.\<close>

datatype panic =
    IndexOutOfRange
  | SliceBoundsOutOfRange
  | MakeLenOutOfRange
  | UnsupportedHashKey int
  | NilDereference

definition HashSHA256 :: int where
  "HashSHA256 = 1"

definition HashSHA512 :: int where
  "HashSHA512 = 2"

definition DefaultIterationCount :: int where
  "DefaultIterationCount = 1000"

definition DefaultSaltSize :: int where
  "DefaultSaltSize = 128"

definition DefaultKeySize :: int where
  "DefaultKeySize = 256"

definition DefaultHashKey :: int where
  "DefaultHashKey = HashSHA256"

definition formatMarker :: byte where
  "formatMarker = 1"

record hasher =
  iterCnt :: int
  saltSize :: int
  keySize :: int
  hashKey :: int

text \<open>\<^verbatim>\<open>pbkdf2.Key(password, salt, iter, keyLen, h)\<close> and the entropy source: asked for
  \<open>n\<close> bytes, the source delivers a list of bytes; fewer than \<open>n\<close> is the case where
  \<^verbatim>\<open>rand.Read\<close> returns a non-nil error.\<close>

type_synonym kdf = "byte list \<Rightarrow> byte list \<Rightarrow> int \<Rightarrow> int \<Rightarrow> hash_func \<Rightarrow> byte list"

type_synonym entropy = "nat \<Rightarrow> byte list"

subsection \<open>Panics as values\<close>

definition and_then :: "'e + 'a \<Rightarrow> ('a \<Rightarrow> 'e + 'b) \<Rightarrow> 'e + 'b" where
  "and_then m f = (case m of Inl e \<Rightarrow> Inl e | Inr x \<Rightarrow> f x)"

text \<open>\<^verbatim>\<open>make([]byte, n)\<close>: a zeroed slice, a panic for a negative length.\<close>

definition make_bytes :: "int \<Rightarrow> panic + byte list" where
  "make_bytes n = (if n < 0 then Inl MakeLenOutOfRange else Inr (replicate (nat n) 0))"

text \<open>\<^verbatim>\<open>buf[i]\<close> read and written.\<close>

definition index :: "byte list \<Rightarrow> int \<Rightarrow> panic + byte" where
  "index buf i =
     (if 0 \<le> i \<and> i < int (length buf) then Inr (buf ! nat i) else Inl IndexOutOfRange)"

definition set_index :: "byte list \<Rightarrow> int \<Rightarrow> byte \<Rightarrow> panic + byte list" where
  "set_index buf i v =
     (if 0 \<le> i \<and> i < int (length buf) then Inr (buf[nat i := v]) else Inl IndexOutOfRange)"

text \<open>\<^verbatim>\<open>s[lo:hi]\<close>.\<close>

definition slice_expr :: "byte list \<Rightarrow> int \<Rightarrow> int \<Rightarrow> panic + byte list" where
  "slice_expr s lo hi =
     (if 0 \<le> lo \<and> lo \<le> hi \<and> hi \<le> int (length s)
      then Inr (take (nat (hi - lo)) (drop (nat lo) s))
      else Inl SliceBoundsOutOfRange)"

text \<open>\<^verbatim>\<open>copy(dst, src)\<close> copies \<open>min (len dst) (len src)\<close> elements to the front of
  \<open>dst\<close>; \<^verbatim>\<open>copy(buf[lo:], src)\<close> does so into the tail of \<open>buf\<close>, which it shares.\<close>

definition copy :: "byte list \<Rightarrow> byte list \<Rightarrow> byte list" where
  "copy dst src = (let n = min (length dst) (length src) in take n src @ drop n dst)"

definition copy_from :: "byte list \<Rightarrow> int \<Rightarrow> byte list \<Rightarrow> panic + byte list" where
  "copy_from buf lo src =
     (if 0 \<le> lo \<and> lo \<le> int (length buf)
      then Inr (take (nat lo) buf @ copy (drop (nat lo) buf) src)
      else Inl SliceBoundsOutOfRange)"

text \<open>The conversions \<^verbatim>\<open>uint(x)\<close>, \<^verbatim>\<open>byte(x)\<close> and \<^verbatim>\<open>int(b)\<close>.\<close>

definition uint64 :: "int \<Rightarrow> int" where
  "uint64 x = take_bit 64 x"

definition to_byte :: "int \<Rightarrow> byte" where
  "to_byte x = word_of_int x"

definition to_int :: "byte \<Rightarrow> int" where
  "to_int b = uint b"

text \<open>\<^verbatim>\<open>rand.Read(b)\<close>: the buffer afterwards, the number of bytes read and whether the
  error is non-nil.\<close>

definition rand_Read :: "entropy \<Rightarrow> byte list \<Rightarrow> byte list \<times> nat \<times> bool" where
  "rand_Read src b =
     (let got = take (length b) (src (length b)); n = length got
      in (got @ drop n b, n, n < length b))"

text \<open>\<^verbatim>\<open>subtle.ConstantTimeCompare\<close>: 1 for equal slices, 0 otherwise.\<close>

definition ConstantTimeCompare :: "byte list \<Rightarrow> byte list \<Rightarrow> int" where
  "ConstantTimeCompare x y = (if x = y then 1 else 0)"

subsection \<open>New\<close>

definition New :: "int \<Rightarrow> int \<Rightarrow> int \<Rightarrow> int \<Rightarrow> hasher option \<times> config_error option" where
  "New iterCtn saltBits keyBits key =
     (if iterCtn < 1 then (None, Some ErrInvalidIterationCount)
      else if saltBits smod 8 \<noteq> 0 \<or> saltBits sdiv 8 < 1 then (None, Some ErrInvalidSaltSize)
      else if keyBits smod 8 \<noteq> 0 \<or> keyBits sdiv 8 < 1 then (None, Some ErrInvalidKeySize)
      else (Some \<lparr>iterCnt = iterCtn, saltSize = saltBits sdiv 8,
                   keySize = keyBits sdiv 8, hashKey = key\<rparr>, None))"

subsection \<open>The header\<close>

definition alg :: "int \<Rightarrow> panic + hash_func" where
  "alg key =
     (if key = HashSHA256 then Inr sha256_New
      else if key = HashSHA512 then Inr sha512_New
      else Inl (UnsupportedHashKey key))"

definition writeHeaderValue :: "byte list \<Rightarrow> int \<Rightarrow> int \<Rightarrow> panic + byte list" where
  "writeHeaderValue buf offset v =
     and_then (set_index buf (offset + 0) (to_byte (drop_bit 24 v))) (\<lambda>buf.
     and_then (set_index buf (offset + 1) (to_byte (drop_bit 16 v))) (\<lambda>buf.
     and_then (set_index buf (offset + 2) (to_byte (drop_bit 8 v))) (\<lambda>buf.
     set_index buf (offset + 3) (to_byte (drop_bit 0 v)))))"

text \<open>The loop of \<^verbatim>\<open>scanHeader\<close>, with the three named results as its state.\<close>

function scanHeader_loop ::
  "byte list \<Rightarrow> int \<Rightarrow> hash_func \<times> int \<times> int \<Rightarrow> panic + hash_func \<times> int \<times> int" where
  "scanHeader_loop buf i st =
     (if i < 13 then
        and_then (index buf (i + 0)) (\<lambda>b0.
        and_then (index buf (i + 1)) (\<lambda>b1.
        and_then (index buf (i + 2)) (\<lambda>b2.
        and_then (index buf (i + 3)) (\<lambda>b3.
        let v = push_bit 24 (to_int b0) OR push_bit 16 (to_int b1)
                OR push_bit 8 (to_int b2) OR to_int b3
        in and_then
             (case st of (hashAlg, iterCnt', saltSize') \<Rightarrow>
                if i = 1 then and_then (alg v) (\<lambda>f. Inr (f, iterCnt', saltSize'))
                else if i = 5 then Inr (hashAlg, v, saltSize')
                else if i = 9 then Inr (hashAlg, iterCnt', v)
                else Inr (hashAlg, iterCnt', saltSize'))
             (\<lambda>st. scanHeader_loop buf (i + 4) st)))))
      else Inr st)"
  by pat_completeness auto
termination
  by (relation "measure (\<lambda>(buf, i, st). nat (13 - i))") auto

declare scanHeader_loop.simps [simp del]

definition scanHeader :: "byte list \<Rightarrow> panic + hash_func \<times> int \<times> int" where
  "scanHeader buf = scanHeader_loop buf 1 (nil_func, 0, 0)"

subsection \<open>Hash and Verify of a hasher\<close>

definition hasher_Hash :: "kdf \<Rightarrow> entropy \<Rightarrow> hasher \<Rightarrow> byte list \<Rightarrow> panic + byte list" where
  "hasher_Hash Key src h pwd =
     and_then (make_bytes (saltSize h)) (\<lambda>salt.
     let salt = fst (rand_Read src salt) in
     and_then (alg (hashKey h)) (\<lambda>f.
     let subKey = Key pwd salt (iterCnt h) (keySize h) f in
     and_then (make_bytes (13 + saltSize h + keySize h)) (\<lambda>out.
     and_then (set_index out 0 formatMarker) (\<lambda>out.
     and_then (writeHeaderValue out 1 (uint64 (hashKey h))) (\<lambda>out.
     and_then (writeHeaderValue out 5 (uint64 (iterCnt h))) (\<lambda>out.
     and_then (writeHeaderValue out 9 (uint64 (int (length salt)))) (\<lambda>out.
     and_then (copy_from out 13 salt) (\<lambda>out.
     copy_from out (13 + int (length salt)) subKey))))))))"

text \<open>The body of \<^verbatim>\<open>Verify\<close>, and \<^verbatim>\<open>Verify\<close> itself: the deferred function recovers
  every panic of the body and sets the result to false.\<close>

definition Verify_body :: "kdf \<Rightarrow> hasher \<Rightarrow> byte list \<Rightarrow> byte list \<Rightarrow> panic + bool" where
  "Verify_body Key h pwd hash =
     and_then (index hash 0) (\<lambda>b.
     if b \<noteq> formatMarker then Inr False
     else
       and_then (scanHeader hash) (\<lambda>(hashFunc, iterCnt, saltLen).
       if saltLen < saltSize h then Inr False
       else
         and_then (make_bytes saltLen) (\<lambda>salt.
         and_then (slice_expr hash 13 (13 + saltLen)) (\<lambda>s.
         let salt = copy salt s;
             subKeyLen = int (length hash) - 13 - saltLen
         in if subKeyLen < keySize h then Inr False
            else
              and_then (make_bytes subKeyLen) (\<lambda>expected.
              and_then (slice_expr hash (13 + saltLen) (13 + saltLen + subKeyLen)) (\<lambda>s.
              let expected = copy expected s;
                  actual = Key pwd salt iterCnt subKeyLen hashFunc
              in Inr (ConstantTimeCompare actual expected = 1)))))))"

definition hasher_Verify :: "kdf \<Rightarrow> hasher \<Rightarrow> byte list \<Rightarrow> byte list \<Rightarrow> bool" where
  "hasher_Verify Key h pwd hash =
     (case Verify_body Key h pwd hash of Inl r \<Rightarrow> False | Inr ok \<Rightarrow> ok)"

subsection \<open>Verify with bounded memory\<close>

text \<open>A fault of a run is a panic, which a deferred function can recover, or the run-time's
  fatal error \<^verbatim>\<open>out of memory\<close>, which ends the process. \<^verbatim>\<open>make([]byte, n)\<close> on a machine
  that can allocate at most \<open>mem\<close> bytes: the fatal error when \<open>n\<close> is beyond that.\<close>

datatype fault = Panic panic | OutOfMemory

definition make_bytes_in :: "int \<Rightarrow> int \<Rightarrow> fault + byte list" where
  "make_bytes_in mem n =
     (if n < 0 then Inl (Panic MakeLenOutOfRange)
      else if mem < n then Inl OutOfMemory
      else Inr (replicate (nat n) 0))"

definition panics :: "panic + 'a \<Rightarrow> fault + 'a" where
  "panics m = (case m of Inl e \<Rightarrow> Inl (Panic e) | Inr x \<Rightarrow> Inr x)"

text \<open>The body of \<^verbatim>\<open>Verify\<close> once more, statement by statement, with the two calls of
  \<^verbatim>\<open>make\<close> bounded. \<^verbatim>\<open>Verify\<close> returns a boolean or, at the fatal error, nothing: the
  deferred function recovers the panics only.\<close>

definition Verify_body_in ::
  "int \<Rightarrow> kdf \<Rightarrow> hasher \<Rightarrow> byte list \<Rightarrow> byte list \<Rightarrow> fault + bool" where
  "Verify_body_in mem Key h pwd hash =
     and_then (panics (index hash 0)) (\<lambda>b.
     if b \<noteq> formatMarker then Inr False
     else
       and_then (panics (scanHeader hash)) (\<lambda>(hashFunc, iterCnt, saltLen).
       if saltLen < saltSize h then Inr False
       else
         and_then (make_bytes_in mem saltLen) (\<lambda>salt.
         and_then (panics (slice_expr hash 13 (13 + saltLen))) (\<lambda>s.
         let salt = copy salt s;
             subKeyLen = int (length hash) - 13 - saltLen
         in if subKeyLen < keySize h then Inr False
            else
              and_then (make_bytes_in mem subKeyLen) (\<lambda>expected.
              and_then (panics (slice_expr hash (13 + saltLen) (13 + saltLen + subKeyLen))) (\<lambda>s.
              let expected = copy expected s;
                  actual = Key pwd salt iterCnt subKeyLen hashFunc
              in Inr (ConstantTimeCompare actual expected = 1)))))))"

definition hasher_Verify_in :: "int \<Rightarrow> kdf \<Rightarrow> hasher \<Rightarrow> byte list \<Rightarrow> byte list \<Rightarrow> bool option" where
  "hasher_Verify_in mem Key h pwd hash =
     (case Verify_body_in mem Key h pwd hash of
        Inl OutOfMemory \<Rightarrow> None
      | Inl (Panic r) \<Rightarrow> Some False
      | Inr ok \<Rightarrow> Some ok)"

subsection \<open>The default hasher\<close>

text \<open>\<^verbatim>\<open>init\<close> drops the error of \<^verbatim>\<open>New\<close>; a nil hasher makes the calls below panic.\<close>

definition defaultHasher :: "hasher option" where
  "defaultHasher =
     fst (New DefaultIterationCount DefaultSaltSize DefaultKeySize DefaultHashKey)"

definition Hash :: "kdf \<Rightarrow> entropy \<Rightarrow> byte list \<Rightarrow> panic + byte list" where
  "Hash Key src pwd =
     (case defaultHasher of None \<Rightarrow> Inl NilDereference
      | Some h \<Rightarrow> hasher_Hash Key src h pwd)"

definition Verify :: "kdf \<Rightarrow> byte list \<Rightarrow> byte list \<Rightarrow> panic + bool" where
  "Verify Key pwd hash =
     (case defaultHasher of None \<Rightarrow> Inl NilDereference
      | Some h \<Rightarrow> Inr (hasher_Verify Key h pwd hash))"

subsection \<open>Running Hash and then Verify\<close>

text \<open>The program of the repository's test \<^verbatim>\<open>TestVerify\<close>: one hasher hashes a password,
  a second one (possibly the same) verifies the password against the result.\<close>

definition Hash_then_Verify ::
  "kdf \<Rightarrow> entropy \<Rightarrow> hasher \<Rightarrow> hasher \<Rightarrow> byte list \<Rightarrow> panic + bool" where
  "Hash_then_Verify Key src h h' pwd =
     and_then (hasher_Hash Key src h pwd) (\<lambda>hash. Inr (hasher_Verify Key h' pwd hash))"

subsection \<open>The wire format, as the specification words it\<close>

text \<open>The value of a byte sequence read as a big-endian integer, the 4-byte field of an
  encoded hash at an offset, and the four big-endian bytes of the low 32 bits of a value.\<close>

definition big_endian :: "byte list \<Rightarrow> int" where
  "big_endian bs = foldl (\<lambda>a b. 256 * a + uint b) 0 bs"

definition field_at :: "byte list \<Rightarrow> nat \<Rightarrow> int" where
  "field_at buf off = big_endian (take 4 (drop off buf))"

definition encode32 :: "int \<Rightarrow> byte list" where
  "encode32 v = [to_byte (drop_bit 24 v), to_byte (drop_bit 16 v), to_byte (drop_bit 8 v), to_byte v]"

subsection \<open>Sample collaborators\<close>

text \<open>A key-derivation function and two entropy sources to run the model on: the function
  returns \<open>keyLen\<close> bytes that depend on its arguments, as \<^verbatim>\<open>pbkdf2.Key\<close> does; the first
  source delivers every byte it is asked for, the second one none (it has failed).\<close>

definition sample_Key :: kdf where
  "sample_Key p s i n f =
     replicate (nat n)
       (of_nat (length p + length s) + of_int i + sum_list p + sum_list s
        + (case f of nil_func \<Rightarrow> 0 | sha256_New \<Rightarrow> 1 | sha512_New \<Rightarrow> 2))"

definition sample_src :: entropy where
  "sample_src n = map of_nat [0..<n]"

definition failed_src :: entropy where
  "failed_src n = []"

section \<open>Auxiliary facts\<close>

lemma and_then_simps [simp]:
  "and_then (Inl e) f = Inl e" "and_then (Inr x) f = f x"
  by (simp_all add: and_then_def)

lemma or_bytes_eq_sum:
  fixes b0 b1 b2 b3 :: byte
  shows "push_bit 24 (uint b0) OR push_bit 16 (uint b1) OR push_bit 8 (uint b2) OR uint b3
   = 16777216 * uint b0 + 65536 * uint b1 + 256 * uint b2 + uint b3"
proof -
  have 1: "push_bit 8 (uint b2) OR uint b3 = push_bit 8 (uint b2) + uint b3"
    by (rule disjunctive_add_eq_or [symmetric], rule bit_eqI) (auto simp add: bit_simps dest: bit_imp_le_length)
  have 2: "push_bit 16 (uint b1) OR (push_bit 8 (uint b2) OR uint b3) = push_bit 16 (uint b1) + (push_bit 8 (uint b2) OR uint b3)"
    by (rule disjunctive_add_eq_or [symmetric], rule bit_eqI) (auto simp add: bit_simps dest: bit_imp_le_length)
  have 3: "push_bit 24 (uint b0) OR (push_bit 16 (uint b1) OR push_bit 8 (uint b2) OR uint b3) 
     = push_bit 24 (uint b0) + (push_bit 16 (uint b1) OR push_bit 8 (uint b2) OR uint b3)"
    by (rule disjunctive_add_eq_or [symmetric], rule bit_eqI) (auto simp add: bit_simps dest: bit_imp_le_length)
  show ?thesis
    by (subst 3, subst 2, subst 1) (simp add: push_bit_eq_mult)
qed

lemma take4_drop:
  assumes "off + 4 \<le> length buf"
  shows "take 4 (drop off buf) = [buf ! off, buf ! (off + 1), buf ! (off + 2), buf ! (off + 3)]"
proof -
  have "drop off buf = buf ! off # drop (Suc off) buf"
    using assms by (simp add: Cons_nth_drop_Suc)
  also have "drop (Suc off) buf = buf ! (off + 1) # drop (Suc (Suc off)) buf"
    using assms by (simp add: Cons_nth_drop_Suc)
  also have "drop (Suc (Suc off)) buf = buf ! (off + 2) # drop (Suc (Suc (Suc off))) buf"
    using assms by (simp add: Cons_nth_drop_Suc)
  also have "drop (Suc (Suc (Suc off))) buf = buf ! (off + 3) # drop (Suc (Suc (Suc (Suc off)))) buf"
    using assms by (simp add: Cons_nth_drop_Suc numeral_3_eq_3)
  finally show ?thesis
    by (simp add: numeral_eq_Suc)
qed

lemma field_at_nth:
  "off + 4 \<le> length buf \<Longrightarrow>
   field_at buf off = 16777216 * uint (buf ! off) + 65536 * uint (buf ! (off + 1))
      + 256 * uint (buf ! (off + 2)) + uint (buf ! (off + 3))"
  by (simp add: field_at_def big_endian_def take4_drop)

lemma big_endian_acc: "0 \<le> a \<Longrightarrow> 0 \<le> foldl (\<lambda>a b. 256 * a + uint (b::byte)) a bs"
  by (induction bs arbitrary: a) simp_all

lemma field_at_nonneg: "0 \<le> field_at buf off"
  by (simp add: field_at_def big_endian_def big_endian_acc)

lemma read_word:
  "off + 4 \<le> length buf \<Longrightarrow> 
    push_bit 24 (to_int (buf ! off)) OR push_bit 16 (to_int (buf ! (off + 1)))
                OR push_bit 8 (to_int (buf ! (off + 2))) OR to_int (buf ! (off + 3)) = field_at buf off"
  by (simp add: to_int_def or_bytes_eq_sum field_at_nth)

lemma scanHeader_eq:
  "scanHeader buf =
     (if length buf < 5 then Inl IndexOutOfRange
      else and_then (alg (field_at buf 1)) (\<lambda>f.
        if length buf < 13 then Inl IndexOutOfRange
        else Inr (f, field_at buf 5, field_at buf 9)))"
proof (cases "length buf < 5")
  case True
  then show ?thesis
    by (simp add: scanHeader_def scanHeader_loop.simps [of _ 1] index_def)
next
  case False
  then have r1: "push_bit 24 (to_int (buf ! Suc 0)) OR push_bit 16 (to_int (buf ! 2))
                OR push_bit 8 (to_int (buf ! 3)) OR to_int (buf ! 4) = field_at buf 1"
    using read_word [of 1 buf] by (simp add: eval_nat_numeral)
  have r5: "9 \<le> length buf \<Longrightarrow> push_bit 24 (to_int (buf ! 5)) OR push_bit 16 (to_int (buf ! 6))
                OR push_bit 8 (to_int (buf ! 7)) OR to_int (buf ! 8) = field_at buf 5"
    using read_word [of 5 buf] by simp
  have r9: "13 \<le> length buf \<Longrightarrow> push_bit 24 (to_int (buf ! 9)) OR push_bit 16 (to_int (buf ! 10))
                OR push_bit 8 (to_int (buf ! 11)) OR to_int (buf ! 12) = field_at buf 9"
    using read_word [of 9 buf] by simp
  have first: "scanHeader buf =
      and_then (alg (field_at buf 1)) (\<lambda>f. scanHeader_loop buf 5 (f, 0, 0))"
    using False
    by (cases "alg (field_at buf 1)")
       (simp_all add: scanHeader_def scanHeader_loop.simps [of _ 1] index_def r1)
  have rest: "scanHeader_loop buf 5 (f, 0, 0) =
      (if length buf < 13 then Inl IndexOutOfRange
        else Inr (f, field_at buf 5, field_at buf 9))" for f
  proof (cases "length buf < 9")
    case True
    then show ?thesis
      by (simp add: scanHeader_loop.simps [of _ 5] index_def)
  next
    case nine: False
    show ?thesis
    proof (cases "length buf < 13")
      case True
      then show ?thesis using nine
        by (simp add: scanHeader_loop.simps [of _ 5] scanHeader_loop.simps [of _ 9] index_def r5)
    next
      case False
      then show ?thesis
        by (simp add: scanHeader_loop.simps [of _ 5] scanHeader_loop.simps [of _ 9]
            scanHeader_loop.simps [of _ 13] index_def r5 r9)
    qed
  qed
  show ?thesis
    using False by (simp add: first rest)
qed


lemma copy_full: "length s = n \<Longrightarrow> copy (replicate n z) s = s"
  by (simp add: copy_def)

lemma make_nonneg: "0 \<le> n \<Longrightarrow> make_bytes n = Inr (replicate (nat n) 0)"
  by (simp add: make_bytes_def)

lemma slice_ok:
  "0 \<le> lo \<Longrightarrow> lo \<le> hi \<Longrightarrow> hi \<le> int (length s) \<Longrightarrow>
   slice_expr s lo hi = Inr (take (nat (hi - lo)) (drop (nat lo) s))"
  by (simp add: slice_expr_def)

lemma Verify_body_eq:
  "Verify_body Key h pwd hash =
    (if hash = [] then Inl IndexOutOfRange
     else if hash ! 0 \<noteq> formatMarker then Inr False
     else if length hash < 5 then Inl IndexOutOfRange
     else and_then (alg (field_at hash 1)) (\<lambda>f.
       if length hash < 13 then Inl IndexOutOfRange
       else if field_at hash 9 < saltSize h then Inr False
       else if int (length hash) < 13 + field_at hash 9 then Inl SliceBoundsOutOfRange
       else if int (length hash) - 13 - field_at hash 9 < keySize h then Inr False
       else Inr (Key pwd (take (nat (field_at hash 9)) (drop 13 hash)) (field_at hash 5)
                   (int (length hash) - 13 - field_at hash 9) f
                 = drop (13 + nat (field_at hash 9)) hash)))"
proof -
  let ?sl = "field_at hash 9"
  have sl: "0 \<le> ?sl" by (rule field_at_nonneg)
  have tail: "\<not> int (length hash) < 13 + ?sl \<Longrightarrow> \<not> int (length hash) - 13 - ?sl < keySize h \<Longrightarrow>
     and_then (make_bytes ?sl) (\<lambda>salt.
         and_then (slice_expr hash 13 (13 + ?sl)) (\<lambda>s.
         let salt = copy salt s;
             subKeyLen = int (length hash) - 13 - ?sl
         in if subKeyLen < keySize h then Inr False
            else
              and_then (make_bytes subKeyLen) (\<lambda>expected.
              and_then (slice_expr hash (13 + ?sl) (13 + ?sl + subKeyLen)) (\<lambda>s.
              let expected = copy expected s;
                  actual = Key pwd salt it subKeyLen f
              in Inr (ConstantTimeCompare actual expected = 1)))))
     = Inr (Key pwd (take (nat ?sl) (drop 13 hash)) it
                   (int (length hash) - 13 - ?sl) f
                 = drop (13 + nat ?sl) hash)" for it f
  proof -
    assume a: "\<not> int (length hash) < 13 + ?sl" and b: "\<not> int (length hash) - 13 - ?sl < keySize h"
    have s1: "slice_expr hash 13 (13 + ?sl) = Inr (take (nat ?sl) (drop 13 hash))"
      using a sl by (simp add: slice_ok)
    have l1: "length (take (nat ?sl) (drop 13 hash)) = nat ?sl"
      using a sl by simp
    have s2: "slice_expr hash (13 + ?sl) (int (length hash))
         = Inr (drop (13 + nat ?sl) hash)"
      using a sl by (simp add: slice_ok nat_add_distrib)
    have l2: "length (drop (13 + nat ?sl) hash) = nat (int (length hash) - 13 - ?sl)"
      using a sl by simp
    show ?thesis
      using a b sl
      by (simp add: make_nonneg s1 s2 copy_full [OF l1] copy_full [OF l2] ConstantTimeCompare_def Let_def
          del: length_take length_drop)
  qed
  show ?thesis
  proof (cases "hash = []")
    case True
    then show ?thesis by (simp add: Verify_body_def index_def)
  next
    case False
    then have i0: "index hash 0 = Inr (hash ! 0)"
      by (simp add: index_def)
    show ?thesis
    proof (cases "alg (field_at hash 1)")
      case (Inl e)
      then show ?thesis
        using False by (simp add: Verify_body_def i0 scanHeader_eq)
    next
      case (Inr f)
      consider "hash ! 0 \<noteq> formatMarker" | "hash ! 0 = formatMarker" "length hash < 13"
        | "hash ! 0 = formatMarker" "\<not> length hash < 13" "?sl < saltSize h"
        | "hash ! 0 = formatMarker" "\<not> length hash < 13" "\<not> ?sl < saltSize h"
          "int (length hash) < 13 + ?sl"
        | "hash ! 0 = formatMarker" "\<not> length hash < 13" "\<not> ?sl < saltSize h"
          "\<not> int (length hash) < 13 + ?sl" "int (length hash) - 13 - ?sl < keySize h"
        | "hash ! 0 = formatMarker" "\<not> length hash < 13" "\<not> ?sl < saltSize h"
          "\<not> int (length hash) < 13 + ?sl" "\<not> int (length hash) - 13 - ?sl < keySize h"
        by blast
      then show ?thesis
      proof cases
        case 1
        then show ?thesis using False by (simp add: Verify_body_def i0)
      next
        case 2
        then show ?thesis using False Inr by (simp add: Verify_body_def i0 scanHeader_eq)
      next
        case 3
        then show ?thesis using False Inr by (simp add: Verify_body_def i0 scanHeader_eq)
      next
        case 4
        then show ?thesis using False Inr sl
          by (simp add: Verify_body_def i0 scanHeader_eq make_nonneg slice_expr_def)
      next
        case 5
        then have "slice_expr hash 13 (13 + ?sl) = Inr (take (nat ?sl) (drop 13 hash))"
          using sl by (simp add: slice_ok)
        then show ?thesis using 5 False Inr sl
          by (simp add: Verify_body_def i0 scanHeader_eq make_nonneg)
      next
        case 6
        then show ?thesis using False Inr tail [OF 6(4) 6(5)]
          by (simp add: Verify_body_def i0 scanHeader_eq)
      qed
    qed
  qed
qed

lemma to_byte_uint64: "n \<le> 56 \<Longrightarrow> to_byte (drop_bit n (uint64 v)) = to_byte (drop_bit n v)"
  unfolding to_byte_def uint64_def
  by (rule bit_word_eqI) (auto simp add: bit_simps)

lemma to_byte_uint64_0 [simp]: "to_byte (uint64 v) = to_byte v"
  using to_byte_uint64 [of 0 v] by simp

lemma length_rand_Read [simp]: "length (fst (rand_Read src b)) = length b"
  by (simp add: rand_Read_def Let_def)

lemma replicate_13: "replicate 13 z = [z, z, z, z, z, z, z, z, z, z, z, z, z]"
  by (simp add: eval_nat_numeral)

lemma header_writes:
  "and_then (set_index (z # z # z # z # z # z # z # z # z # z # z # z # z # rest) 0 m) (\<lambda>out.
     and_then (writeHeaderValue out 1 (uint64 a)) (\<lambda>out.
     and_then (writeHeaderValue out 5 (uint64 b)) (\<lambda>out.
     and_then (writeHeaderValue out 9 (uint64 c)) g)))
   = g (m # encode32 a @ encode32 b @ encode32 c @ rest)"
  by (simp add: set_index_def writeHeaderValue_def encode32_def to_byte_uint64)


lemma copy_from_append:
  "length src = length xs \<Longrightarrow> lo = int (length pre) \<Longrightarrow>
   copy_from (pre @ xs @ ys) lo src = Inr (pre @ src @ ys)"
  by (simp add: copy_from_def copy_def)

lemma hasher_Hash_eq:
  assumes s: "0 \<le> saltSize h" and k: "0 \<le> keySize h"
    and f: "alg (hashKey h) = Inr f"
    and salt: "salt = fst (rand_Read src (replicate (nat (saltSize h)) 0))"
    and subKey: "subKey = Key pwd salt (iterCnt h) (keySize h) f"
    and len: "length subKey = nat (keySize h)"
  shows "hasher_Hash Key src h pwd =
     Inr (formatMarker # encode32 (hashKey h) @ encode32 (iterCnt h) @ encode32 (saltSize h)
            @ salt @ subKey)"
proof -
  have ls: "length salt = nat (saltSize h)"
    by (simp add: salt)
  have out: "make_bytes (13 + saltSize h + keySize h)
     = Inr (0 # 0 # 0 # 0 # 0 # 0 # 0 # 0 # 0 # 0 # 0 # 0 # 0 #
            replicate (nat (saltSize h)) 0 @ replicate (nat (keySize h)) 0)"
  proof -
    have n: "nat (13 + saltSize h + keySize h) = 13 + (nat (saltSize h) + nat (keySize h))"
      using s k by simp
    have "make_bytes (13 + saltSize h + keySize h)
        = Inr (replicate (nat (13 + saltSize h + keySize h)) 0)"
      using s k by (simp add: make_bytes_def)
    then show ?thesis
      by (simp add: n replicate_add replicate_13)
  qed
  have c1: "copy_from (m # e1 @ e2 @ e3 @ replicate (nat (saltSize h)) 0 @ replicate (nat (keySize h)) 0) 13 salt
     = Inr (m # e1 @ e2 @ e3 @ salt @ replicate (nat (keySize h)) 0)"
    if "length e1 = 4" "length e2 = 4" "length e3 = 4" for m e1 e2 e3
    using that ls
      copy_from_append [of salt "replicate (nat (saltSize h)) 0" 13 "m # e1 @ e2 @ e3"
        "replicate (nat (keySize h)) 0"]
    by simp
  have c2: "copy_from (m # e1 @ e2 @ e3 @ salt @ replicate (nat (keySize h)) 0) (13 + saltSize h) subKey
     = Inr (m # e1 @ e2 @ e3 @ salt @ subKey)"
    if "length e1 = 4" "length e2 = 4" "length e3 = 4" for m e1 e2 e3
    using that ls len s
      copy_from_append [of subKey "replicate (nat (keySize h)) 0" "13 + saltSize h"
        "m # e1 @ e2 @ e3 @ salt" "[]"]
    by simp
  have e: "length (encode32 v) = 4" for v
    by (simp add: encode32_def)
  show ?thesis
    using s
    by (simp add: hasher_Hash_def make_nonneg salt [symmetric] f subKey [symmetric] out
        header_writes ls c1 c2 e)
qed

lemma big_endian_encode32: "big_endian (encode32 v) = take_bit 32 v"
proof -
  have "push_bit 24 (uint (word_of_int (drop_bit 24 v) :: byte))
        OR push_bit 16 (uint (word_of_int (drop_bit 16 v) :: byte))
        OR push_bit 8 (uint (word_of_int (drop_bit 8 v) :: byte))
        OR uint (word_of_int v :: byte) = take_bit 32 v"
  proof (rule bit_eqI)
    fix n :: nat
    consider "n < 8" | "8 \<le> n" "n < 16" | "16 \<le> n" "n < 24" | "24 \<le> n" "n < 32" | "32 \<le> n"
      by linarith
    then show "bit (push_bit 24 (uint (word_of_int (drop_bit 24 v) :: byte))
        OR push_bit 16 (uint (word_of_int (drop_bit 16 v) :: byte))
        OR push_bit 8 (uint (word_of_int (drop_bit 8 v) :: byte))
        OR uint (word_of_int v :: byte)) n = bit (take_bit 32 v) n"
      by cases (auto simp add: bit_simps)
  qed
  then show ?thesis
    by (simp add: big_endian_def encode32_def to_byte_def or_bytes_eq_sum)
qed

lemma big_endian_encode32_small: "0 \<le> v \<Longrightarrow> v < 4294967296 \<Longrightarrow> big_endian (encode32 v) = v"
  by (simp add: big_endian_encode32 take_bit_int_eq_self)

lemma length_encode32 [simp]: "length (encode32 v) = 4"
  by (simp add: encode32_def)

lemma field_at_1: "length e1 = 4 \<Longrightarrow> field_at (m # e1 @ rest) (Suc 0) = big_endian e1"
  by (simp add: field_at_def)

lemma field_at_5: "length e1 = 4 \<Longrightarrow> length e2 = 4 \<Longrightarrow> field_at (m # e1 @ e2 @ rest) 5 = big_endian e2"
  using arg_cong [of "drop 5 (m # e1 @ e2 @ rest)" "e2 @ rest" "\<lambda>xs. big_endian (take 4 xs)"]
  by (simp add: field_at_def)

lemma field_at_9: "length e1 = 4 \<Longrightarrow> length e2 = 4 \<Longrightarrow> length e3 = 4 \<Longrightarrow>
    field_at (m # e1 @ e2 @ e3 @ rest) 9 = big_endian e3"
  using arg_cong [of "drop 9 (m # e1 @ e2 @ e3 @ rest)" "e3 @ rest" "\<lambda>xs. big_endian (take 4 xs)"]
  by (simp add: field_at_def)

lemma drop_13: "length e1 = 4 \<Longrightarrow> length e2 = 4 \<Longrightarrow> length e3 = 4 \<Longrightarrow>
    drop 13 (m # e1 @ e2 @ e3 @ rest) = rest"
  by simp


lemma alg_Inr_iff: "alg key = Inr f \<longleftrightarrow> (key = 1 \<and> f = sha256_New) \<or> (key = 2 \<and> f = sha512_New)"
  by (auto simp add: alg_def HashSHA256_def HashSHA512_def)

lemma Verify_of_encoded:
  assumes f: "alg key = Inr f"
    and sl: "0 \<le> sl" "sl < 4294967296" "length salt = nat sl"
  shows "Verify_body Key h' pwd (formatMarker # encode32 key @ encode32 it @ encode32 sl @ salt @ subKey)
     = Inr (saltSize h' \<le> sl \<and> keySize h' \<le> int (length subKey)
            \<and> Key pwd salt (take_bit 32 it) (int (length subKey)) f = subKey)"
proof -
  let ?hash = "formatMarker # encode32 key @ encode32 it @ encode32 sl @ salt @ subKey"
  have key: "big_endian (encode32 key) = key"
    using f by (auto simp add: alg_Inr_iff big_endian_encode32)
  have f1: "field_at ?hash 1 = key"
    by (simp add: field_at_1 key)
  have f5: "field_at ?hash 5 = take_bit 32 it"
    by (simp add: field_at_5 big_endian_encode32)
  have f9: "field_at ?hash 9 = sl"
    using sl by (simp add: field_at_9 big_endian_encode32_small)
  have d13: "drop 13 ?hash = salt @ subKey"
    by simp
  have d: "drop (13 + nat sl) ?hash = subKey"
    using sl by (simp add: drop_13 add.commute [of 13] drop_drop [symmetric] del: drop_drop)
  have l: "int (length ?hash) = 13 + sl + int (length subKey)"
    using sl by simp
  show ?thesis
    unfolding Verify_body_eq f1 f5 f9 d d13 l
    using sl f by (auto simp add: )
qed

lemma size_check_iff:
  "(a smod 8 \<noteq> 0 \<or> a sdiv 8 < 1) \<longleftrightarrow> (a \<le> 0 \<or> \<not> 8 dvd a)" for a :: int
proof (cases "0 < a")
  case True
  then have "a smod 8 = a mod 8" "a sdiv 8 = a div 8"
    by (simp_all add: signed_modulo_int_def signed_divide_int_def)
  then show ?thesis
    using True by (auto simp add: dvd_eq_mod_eq_0 elim!: dvdE)
next
  case False
  then have "a sdiv 8 \<le> 0"
    by (simp add: signed_divide_int_def sgn_if pos_imp_zdiv_nonneg_iff)
  then show ?thesis
    using False by auto
qed

lemma sdiv_pos: "0 < a \<Longrightarrow> a sdiv 8 = a div 8" for a :: int
  by (simp add: signed_divide_int_def)

lemma New_eq:
  "New iterCtn saltBits keyBits key =
     (if iterCtn < 1 then (None, Some ErrInvalidIterationCount)
      else if saltBits \<le> 0 \<or> \<not> 8 dvd saltBits then (None, Some ErrInvalidSaltSize)
      else if keyBits \<le> 0 \<or> \<not> 8 dvd keyBits then (None, Some ErrInvalidKeySize)
      else (Some \<lparr>iterCnt = iterCtn, saltSize = saltBits div 8,
                   keySize = keyBits div 8, hashKey = key\<rparr>, None))"
proof -
  have s: "(saltBits smod 8 \<noteq> 0 \<or> saltBits sdiv 8 < 1) = (saltBits \<le> 0 \<or> \<not> 8 dvd saltBits)"
    by (rule size_check_iff)
  have k: "(keyBits smod 8 \<noteq> 0 \<or> keyBits sdiv 8 < 1) = (keyBits \<le> 0 \<or> \<not> 8 dvd keyBits)"
    by (rule size_check_iff)
  show ?thesis
    unfolding New_def s k by (auto simp add: sdiv_pos)
qed

lemma New_Some:
  assumes "New iterCtn saltBits keyBits key = (Some h, e)"
  shows "1 \<le> iterCtn" "0 < saltBits" "8 dvd saltBits" "0 < keyBits" "8 dvd keyBits"
    "h = \<lparr>iterCnt = iterCtn, saltSize = saltBits div 8, keySize = keyBits div 8, hashKey = key\<rparr>"
    "e = None"
  using assms by (simp_all add: New_eq split: if_splits)

lemma length_sample_Key: "length (sample_Key p s i n f) = nat n"
  by (simp add: sample_Key_def)

lemma Hash_then_Verify_eq:
  assumes new: "New iterCtn saltBits keyBits key = (Some h, e)"
    and f: "alg key = Inr f"
    and small: "saltBits < 34359738368"
    and salt: "salt = fst (rand_Read src (replicate (nat (saltSize h)) 0))"
    and len: "length (Key pwd salt iterCtn (keySize h) f) = nat (keySize h)"
  shows "Hash_then_Verify Key src h h' pwd =
     Inr (saltSize h' \<le> saltSize h \<and> keySize h' \<le> keySize h
          \<and> Key pwd salt (take_bit 32 iterCtn) (keySize h) f = Key pwd salt iterCtn (keySize h) f)"
proof -
  note n = New_Some [OF new]
  have s: "0 \<le> saltSize h" "saltSize h < 4294967296" and k: "0 \<le> keySize h"
    using n small by simp_all
  have hk: "hashKey h = key" "iterCnt h = iterCtn"
    using n by simp_all
  have ls: "length salt = nat (saltSize h)"
    by (simp add: salt)
  have hash: "hasher_Hash Key src h pwd =
     Inr (formatMarker # encode32 key @ encode32 iterCtn @ encode32 (saltSize h)
            @ salt @ Key pwd salt iterCtn (keySize h) f)"
    using hasher_Hash_eq [of h f salt src "Key pwd salt iterCtn (keySize h) f" Key pwd] s k f salt len hk
    by simp
  show ?thesis
    using k by (simp add: Hash_then_Verify_def hash hasher_Verify_def
        Verify_of_encoded [OF f s ls] len)
qed

lemma Hash_then_Verify_truncated:
  assumes new: "New iterCtn saltBits keyBits key = (Some h, e)"
    and f: "alg key = Inr f"
    and big: "34359738368 \<le> saltBits"
    and len: "\<And>p s i n f. length (Key p s i n f) = nat n"
  shows "Hash_then_Verify Key src h h pwd = Inr False"
proof -
  note n = New_Some [OF new]
  define salt where "salt = fst (rand_Read src (replicate (nat (saltSize h)) 0))"
  define subKey where "subKey = Key pwd salt iterCtn (keySize h) f"
  let ?hash = "formatMarker # encode32 key @ encode32 iterCtn @ encode32 (saltSize h) @ salt @ subKey"
  have s: "4294967296 \<le> saltSize h" and k: "0 \<le> keySize h"
    using n big by simp_all
  have hash: "hasher_Hash Key src h pwd = Inr ?hash"
    using hasher_Hash_eq [of h f salt src subKey Key pwd] s k f n len
    by (simp add: salt_def subKey_def)
  have key: "big_endian (encode32 key) = key"
    using f by (auto simp add: alg_Inr_iff big_endian_encode32)
  have f1: "field_at ?hash 1 = key"
    by (simp add: field_at_1 key)
  have "field_at ?hash 9 = take_bit 32 (saltSize h)"
    by (simp add: field_at_9 big_endian_encode32)
  moreover have "take_bit 32 (saltSize h) < 4294967296"
    using take_bit_int_less_exp [of 32 "saltSize h"] by simp
  ultimately have f9: "field_at ?hash 9 < saltSize h"
    using s by simp
  have "Verify_body Key h pwd ?hash = Inr False"
    unfolding Verify_body_eq f1 using f f9 by simp
  then show ?thesis
    by (simp add: Hash_then_Verify_def hash hasher_Verify_def)
qed

lemma panics_simps [simp]: "panics (Inl e) = Inl (Panic e)" "panics (Inr x) = Inr x"
  by (simp_all add: panics_def)

lemma make_bytes_in_eq: "n \<le> mem \<Longrightarrow> make_bytes_in mem n = panics (make_bytes n)"
  by (simp add: make_bytes_in_def make_bytes_def)

lemma field_at_less:
  assumes "off + 4 \<le> length buf"
  shows "field_at buf off < 4294967296"
proof -
  have "uint (b :: byte) < 256" for b
    using uint_bounded [of b] by simp
  from this [of "buf ! off"] this [of "buf ! (off + 1)"] this [of "buf ! (off + 2)"]
    this [of "buf ! (off + 3)"]
  show ?thesis
    by (simp add: field_at_nth [OF assms])
qed

lemma scanHeader_Inr:
  assumes "scanHeader hash = Inr (f, it, sl)"
  shows "0 \<le> sl" "sl < 4294967296"
proof -
  from assms have l: "13 \<le> length hash" and sl: "sl = field_at hash 9"
    by (auto simp add: scanHeader_eq and_then_def split: if_splits sum.splits)
  show "0 \<le> sl"
    by (simp add: sl field_at_nonneg)
  show "sl < 4294967296"
    using field_at_less [of 9 hash] l by (simp add: sl)
qed

lemma Verify_body_in_sufficient:
  assumes m: "4294967295 \<le> mem" and l: "int (length hash) \<le> mem"
  shows "Verify_body_in mem Key h pwd hash = panics (Verify_body Key h pwd hash)"
proof (cases "scanHeader hash")
  case (Inl e)
  then show ?thesis
    by (cases "index hash 0") (simp_all add: Verify_body_in_def Verify_body_def)
next
  case (Inr r)
  obtain f it sl where r: "r = (f, it, sl)"
    by (cases r)
  note sl = scanHeader_Inr [OF Inr [unfolded r]]
  have m1: "make_bytes_in mem sl = panics (make_bytes sl)"
    using sl m by (simp add: make_bytes_in_eq)
  have m2: "make_bytes_in mem (int (length hash) - 13 - sl) = panics (make_bytes (int (length hash) - 13 - sl))"
    using sl l by (simp add: make_bytes_in_eq)
  show ?thesis
    unfolding Verify_body_in_def Verify_body_def Inr r
    by (cases "index hash 0"; cases "make_bytes sl"; cases "slice_expr hash 13 (13 + sl)";
        cases "make_bytes (int (length hash) - 13 - sl)";
        cases "slice_expr hash (13 + sl) (13 + sl + (int (length hash) - 13 - sl))")
       (simp_all add: m1 m2 Let_def)
qed

lemma hasher_Verify_in_sufficient:
  assumes "4294967295 \<le> mem" and "int (length hash) \<le> mem"
  shows "hasher_Verify_in mem Key h pwd hash = Some (hasher_Verify Key h pwd hash)"
  unfolding hasher_Verify_in_def hasher_Verify_def Verify_body_in_sufficient [OF assms]
  by (cases "Verify_body Key h pwd hash") simp_all

section \<open>Round trip (claim C1)\<close>

text \<open>
  Claim C1, as amended. For every password and every hasher that \<^verbatim>\<open>New\<close> returns for an
  iteration count below \<open>2^32\<close>, a salt size below \<open>2^35\<close> bits (a salt length below
  \<open>2^32\<close> bytes) and one of the two hash keys, \<^verbatim>\<open>Hash\<close> returns and \<^verbatim>\<open>Verify\<close> of the
  password and the hash it returned is true, whatever the entropy source delivers. The
  key-derivation function is any function that returns \<open>keyLen\<close> bytes.
\<close>

theorem Verify_Hash_roundtrip:
  assumes "New iterCtn saltBits keyBits key = (Some h, None)"
    and "key = HashSHA256 \<or> key = HashSHA512"
    and "iterCtn < 4294967296"
    and "saltBits < 34359738368"
    and "\<And>p s i n f. length (Key p s i n f) = nat n"
  shows "Hash_then_Verify Key src h h pwd = Inr True"
proof -
  from assms(2) obtain f where f: "alg key = Inr f"
    by (auto simp add: alg_Inr_iff HashSHA256_def HashSHA512_def)
  have "1 \<le> iterCtn"
    using New_Some(1) [OF assms(1)] .
  then have "take_bit 32 iterCtn = iterCtn"
    using assms(3) by (simp add: take_bit_int_eq_self)
  then show ?thesis
    using Hash_then_Verify_eq [OF assms(1) f assms(4) refl, of Key pwd src h] assms(5) by simp
qed

text \<open>Witness of C1: the default configuration and the password \<^verbatim>\<open>"pw"\<close>.\<close>

theorem Verify_Hash_roundtrip_witness:
  "New 1000 128 256 HashSHA256
     = (Some \<lparr>iterCnt = 1000, saltSize = 16, keySize = 32, hashKey = HashSHA256\<rparr>, None) \<and>
   Hash_then_Verify sample_Key sample_src
     \<lparr>iterCnt = 1000, saltSize = 16, keySize = 32, hashKey = HashSHA256\<rparr>
     \<lparr>iterCnt = 1000, saltSize = 16, keySize = 32, hashKey = HashSHA256\<rparr> [112, 119] = Inr True"
proof -
  have n: "New 1000 128 256 HashSHA256
     = (Some \<lparr>iterCnt = 1000, saltSize = 16, keySize = 32, hashKey = HashSHA256\<rparr>, None)"
    by (simp add: New_def)
  have "Hash_then_Verify sample_Key sample_src
     \<lparr>iterCnt = 1000, saltSize = 16, keySize = 32, hashKey = HashSHA256\<rparr>
     \<lparr>iterCnt = 1000, saltSize = 16, keySize = 32, hashKey = HashSHA256\<rparr> [112, 119] = Inr True"
    by (rule Verify_Hash_roundtrip [where Key = sample_Key, OF n _ _ _ length_sample_Key]) simp_all
  with n show ?thesis
    by simp
qed

text \<open>
  Counterexample to C1 as stated: \<^verbatim>\<open>New(1, 1<<35, 8, HashSHA256)\<close> is a valid configuration
  with a salt of \<open>2^32\<close> bytes. \<^verbatim>\<open>writeHeaderValue\<close> keeps the low 32 bits of the salt
  length, so the header holds 0, and \<^verbatim>\<open>Verify\<close> of the same hasher rejects the hash at its
  salt floor check.
\<close>

theorem roundtrip_fails_for_4GiB_salt:
  "New 1 34359738368 8 HashSHA256
     = (Some \<lparr>iterCnt = 1, saltSize = 4294967296, keySize = 1, hashKey = HashSHA256\<rparr>, None) \<and>
   Hash_then_Verify sample_Key sample_src
     \<lparr>iterCnt = 1, saltSize = 4294967296, keySize = 1, hashKey = HashSHA256\<rparr>
     \<lparr>iterCnt = 1, saltSize = 4294967296, keySize = 1, hashKey = HashSHA256\<rparr> [] = Inr False"
proof -
  have n: "New 1 34359738368 8 HashSHA256
     = (Some \<lparr>iterCnt = 1, saltSize = 4294967296, keySize = 1, hashKey = HashSHA256\<rparr>, None)"
    by (simp add: New_def)
  have f: "alg HashSHA256 = Inr sha256_New"
    by (simp add: alg_def)
  show ?thesis
    using n Hash_then_Verify_truncated [OF n f _ length_sample_Key] by simp
qed

section \<open>Verify on malformed input (claim C2)\<close>

text \<open>
  Claim C2 at its failing input: the default hasher, the password \<^verbatim>\<open>"pw"\<close> and the 13-byte
  hash that holds the format marker, the hash key 1, the iteration count 1000 and the salt
  length \<open>2^32 - 1\<close>, with no salt and no sub-key behind the header. \<^verbatim>\<open>scanHeader\<close> decodes
  that salt length, it passes the salt floor check, and \<^verbatim>\<open>Verify\<close> calls
  \<^verbatim>\<open>make([]byte, saltLen)\<close> before the slice expression that checks the length against the
  hash. On a machine that can allocate at most 2 GiB the call ends the process with the
  fatal out-of-memory error: \<^verbatim>\<open>Verify\<close> returns nothing, and the deferred function does not
  run. Where 4 GiB can be allocated the slice expression panics next, the panic is
  recovered, and \<^verbatim>\<open>Verify\<close> returns false.
\<close>

theorem Verify_aborts_when_out_of_memory:
  "scanHeader [1, 0, 0, 0, 1, 0, 0, 3, 232, 255, 255, 255, 255]
     = Inr (sha256_New, 1000, 4294967295) \<and>
   Verify_body_in 2147483648 sample_Key
     \<lparr>iterCnt = 1000, saltSize = 16, keySize = 32, hashKey = 1\<rparr> [112, 119]
     [1, 0, 0, 0, 1, 0, 0, 3, 232, 255, 255, 255, 255] = Inl OutOfMemory \<and>
   hasher_Verify_in 2147483648 sample_Key
     \<lparr>iterCnt = 1000, saltSize = 16, keySize = 32, hashKey = 1\<rparr> [112, 119]
     [1, 0, 0, 0, 1, 0, 0, 3, 232, 255, 255, 255, 255] = None \<and>
   hasher_Verify_in 4294967295 sample_Key
     \<lparr>iterCnt = 1000, saltSize = 16, keySize = 32, hashKey = 1\<rparr> [112, 119]
     [1, 0, 0, 0, 1, 0, 0, 3, 232, 255, 255, 255, 255] = Some False"
proof -
  have sc: "scanHeader [1, 0, 0, 0, 1, 0, 0, 3, 232, 255, 255, 255, 255]
     = Inr (sha256_New, 1000, 4294967295)"
    by (simp add: scanHeader_eq field_at_def big_endian_def alg_def HashSHA256_def)
  have b: "Verify_body_in 2147483648 sample_Key
     \<lparr>iterCnt = 1000, saltSize = 16, keySize = 32, hashKey = 1\<rparr> [112, 119]
     [1, 0, 0, 0, 1, 0, 0, 3, 232, 255, 255, 255, 255] = Inl OutOfMemory"
    by (simp add: Verify_body_in_def sc index_def formatMarker_def make_bytes_in_def)
  have "hasher_Verify sample_Key
     \<lparr>iterCnt = 1000, saltSize = 16, keySize = 32, hashKey = 1\<rparr> [112, 119]
     [1, 0, 0, 0, 1, 0, 0, 3, 232, 255, 255, 255, 255] = False"
    by (simp add: hasher_Verify_def Verify_body_eq field_at_def big_endian_def alg_def
        HashSHA256_def formatMarker_def)
  then have enough: "hasher_Verify_in 4294967295 sample_Key
     \<lparr>iterCnt = 1000, saltSize = 16, keySize = 32, hashKey = 1\<rparr> [112, 119]
     [1, 0, 0, 0, 1, 0, 0, 3, 232, 255, 255, 255, 255] = Some False"
    by (simp add: hasher_Verify_in_sufficient)
  show ?thesis
    using sc b enough by (simp add: hasher_Verify_in_def)
qed

section \<open>The layout of an encoded hash (claim C3)\<close>

text \<open>
  Claim C3, as amended. For a hasher that \<^verbatim>\<open>New\<close> returns for one of the two hash keys,
  an iteration count below \<open>2^32\<close> and a salt size below \<open>2^35\<close> bits, \<^verbatim>\<open>Hash\<close> returns
  a buffer of exactly \<open>13 + saltSize + keySize\<close> bytes: byte 0 is the format marker, the
  4-byte big-endian fields at offsets 1, 5 and 9 hold the hash key, the iteration count and
  the salt length (and \<^verbatim>\<open>scanHeader\<close> decodes them), and the salt and then the sub-key
  follow the 13 header bytes contiguously. The salt is what \<^verbatim>\<open>rand.Read\<close> left in a buffer
  of \<open>saltSize\<close> bytes, the sub-key what the key-derivation function returns for the
  password, that salt, the iteration count, \<open>keySize\<close> and the digest.
\<close>

theorem Hash_layout:
  assumes new: "New iterCtn saltBits keyBits key = (Some h, None)"
    and f: "alg key = Inr hashFunc"
    and it: "iterCtn < 4294967296"
    and sb: "saltBits < 34359738368"
    and len: "\<And>p s i n f. length (Key p s i n f) = nat n"
  shows "\<exists>out salt subKey.
      hasher_Hash Key src h pwd = Inr out \<and>
      int (length out) = 13 + saltSize h + keySize h \<and>
      out ! 0 = formatMarker \<and>
      field_at out 1 = key \<and> field_at out 5 = iterCtn \<and> field_at out 9 = saltSize h \<and>
      scanHeader out = Inr (hashFunc, iterCtn, saltSize h) \<and>
      out = take 13 out @ salt @ subKey \<and>
      salt = fst (rand_Read src (replicate (nat (saltSize h)) 0)) \<and>
      int (length salt) = saltSize h \<and>
      subKey = Key pwd salt iterCtn (keySize h) hashFunc \<and>
      int (length subKey) = keySize h"
proof -
  note n = New_Some [OF new]
  define salt where "salt = fst (rand_Read src (replicate (nat (saltSize h)) 0))"
  define subKey where "subKey = Key pwd salt iterCtn (keySize h) hashFunc"
  define out where
    "out = formatMarker # encode32 key @ encode32 iterCtn @ encode32 (saltSize h) @ salt @ subKey"
  have s: "0 \<le> saltSize h" "saltSize h < 4294967296" and k: "0 \<le> keySize h"
    using n sb by simp_all
  have ls: "length salt = nat (saltSize h)"
    by (simp add: salt_def)
  have lk: "length subKey = nat (keySize h)"
    by (simp add: subKey_def len)
  have hash: "hasher_Hash Key src h pwd = Inr out"
    unfolding out_def
    using hasher_Hash_eq [of h hashFunc salt src subKey Key pwd] s k f n lk
    by (simp add: salt_def subKey_def)
  have key: "big_endian (encode32 key) = key"
    using f by (auto simp add: alg_Inr_iff big_endian_encode32)
  have f1: "field_at out 1 = key"
    by (simp add: out_def field_at_1 key)
  have f5: "field_at out 5 = iterCtn"
    using n(1) it by (simp add: out_def field_at_5 big_endian_encode32_small)
  have f9: "field_at out 9 = saltSize h"
    using s by (simp add: out_def field_at_9 big_endian_encode32_small)
  have l: "int (length out) = 13 + saltSize h + keySize h"
    using s k by (simp add: out_def ls lk)
  have scan: "scanHeader out = Inr (hashFunc, iterCtn, saltSize h)"
    unfolding scanHeader_eq f1 f5 f9 using l s k f by simp
  have t: "take 13 out = formatMarker # encode32 key @ encode32 iterCtn @ encode32 (saltSize h)"
    by (simp add: out_def)
  have parts: "out = take 13 out @ salt @ subKey"
    unfolding t by (simp add: out_def)
  have m: "out ! 0 = formatMarker"
    by (simp add: out_def)
  show ?thesis
    using hash l m f1 f5 f9 scan parts ls lk s k salt_def subKey_def by auto
qed

text \<open>
  Witness of C3, the concrete scenario of the claim: \<^verbatim>\<open>New(1000, 128, 256, HashSHA256)\<close> and
  the password \<^verbatim>\<open>"MyTestPassword"\<close> give a buffer of 61 bytes whose header decodes to the
  iteration count 1000 and the salt length 16.
\<close>

theorem Hash_layout_witness:
  "\<exists>out salt subKey.
      hasher_Hash sample_Key sample_src \<lparr>iterCnt = 1000, saltSize = 16, keySize = 32, hashKey = 1\<rparr>
        [77, 121, 84, 101, 115, 116, 80, 97, 115, 115, 119, 111, 114, 100] = Inr out \<and>
      int (length out) = 61 \<and>
      out ! 0 = formatMarker \<and>
      field_at out 1 = 1 \<and> field_at out 5 = 1000 \<and> field_at out 9 = 16 \<and>
      scanHeader out = Inr (sha256_New, 1000, 16) \<and>
      out = take 13 out @ salt @ subKey \<and>
      salt = fst (rand_Read sample_src (replicate 16 0)) \<and>
      int (length salt) = 16 \<and>
      subKey = sample_Key [77, 121, 84, 101, 115, 116, 80, 97, 115, 115, 119, 111, 114, 100]
                 salt 1000 32 sha256_New \<and>
      int (length subKey) = 32"
proof -
  have n: "New 1000 128 256 1 = (Some \<lparr>iterCnt = 1000, saltSize = 16, keySize = 32, hashKey = 1\<rparr>, None)"
    by (simp add: New_def)
  have f: "alg 1 = Inr sha256_New"
    by (simp add: alg_def HashSHA256_def)
  show ?thesis
    using Hash_layout [where Key = sample_Key and src = sample_src
        and pwd = "[77, 121, 84, 101, 115, 116, 80, 97, 115, 115, 119, 111, 114, 100]",
        OF n f _ _ length_sample_Key]
    by simp
qed

text \<open>
  Counterexample to C3 as stated: \<^verbatim>\<open>New(1<<32, 8, 8, HashSHA256)\<close> is a valid
  configuration, and the iteration-count field of the hash it produces holds 0, not
  \<open>2^32\<close>: \<^verbatim>\<open>writeHeaderValue\<close> writes the low 32 bits only.
\<close>

theorem Hash_truncates_iteration_count:
  "New 4294967296 8 8 HashSHA256
     = (Some \<lparr>iterCnt = 4294967296, saltSize = 1, keySize = 1, hashKey = HashSHA256\<rparr>, None) \<and>
   hasher_Hash sample_Key sample_src
     \<lparr>iterCnt = 4294967296, saltSize = 1, keySize = 1, hashKey = HashSHA256\<rparr> []
     = Inr [1, 0, 0, 0, 1, 0, 0, 0, 0, 0, 0, 0, 1, 0, 2] \<and>
   field_at [1, 0, 0, 0, 1, 0, 0, 0, 0, 0, 0, 0, 1, 0, 2] 5 = 0 \<and>
   scanHeader [1, 0, 0, 0, 1, 0, 0, 0, 0, 0, 0, 0, 1, 0, 2] = Inr (sha256_New, 0, 1)"
proof -
  have n: "New 4294967296 8 8 HashSHA256
     = (Some \<lparr>iterCnt = 4294967296, saltSize = 1, keySize = 1, hashKey = HashSHA256\<rparr>, None)"
    by (simp add: New_def)
  have f: "alg HashSHA256 = Inr sha256_New"
    by (simp add: alg_def)
  have salt: "fst (rand_Read sample_src (replicate (nat 1) 0)) = [0]"
    by (simp add: rand_Read_def sample_src_def)
  have k: "sample_Key [] [0] 4294967296 1 sha256_New = [2]"
    by (simp add: sample_Key_def)
  have e: "encode32 HashSHA256 = [0, 0, 0, 1]" "encode32 4294967296 = [0, 0, 0, 0]"
    "encode32 1 = [0, 0, 0, 1]"
    by (simp_all add: encode32_def to_byte_def HashSHA256_def drop_bit_eq_div)
  have h: "hasher_Hash sample_Key sample_src
     \<lparr>iterCnt = 4294967296, saltSize = 1, keySize = 1, hashKey = HashSHA256\<rparr> []
     = Inr [1, 0, 0, 0, 1, 0, 0, 0, 0, 0, 0, 0, 1, 0, 2]"
    using hasher_Hash_eq [of "\<lparr>iterCnt = 4294967296, saltSize = 1, keySize = 1, hashKey = HashSHA256\<rparr>"
         sha256_New "[0]" sample_src "[2]" sample_Key "[]"] f salt k
    by (simp add: e formatMarker_def)
  have f5: "field_at [1, 0, 0, 0, 1, 0, 0, 0, 0, 0, 0, 0, 1, 0, 2] 5 = 0"
    by (simp add: field_at_def big_endian_def)
  have sc: "scanHeader [1, 0, 0, 0, 1, 0, 0, 0, 0, 0, 0, 0, 1, 0, 2] = Inr (sha256_New, 0, 1)"
    by (simp add: scanHeader_eq field_at_def big_endian_def alg_def HashSHA256_def)
  show ?thesis
    using n h f5 sc by simp
qed

section \<open>Verify re-derives with the stored parameters (claim C4)\<close>

text \<open>
  Claim C4. On an encoded hash with the format marker, the hash key 1 or 2 at offset 1, and
  a salt and a sub-key region that pass the floor checks of the hasher, \<^verbatim>\<open>Verify\<close> derives
  a key of the length of the stored sub-key (not of the hasher's key size) from the
  password, the stored salt, the stored iteration count and the digest of the stored hash
  key (SHA-256 for 1, SHA-512 for 2; the hasher's own hash key plays no part), and returns
  true if and only if that key equals the stored sub-key.
\<close>

theorem Verify_rederives_from_header:
  assumes "13 \<le> length hash" and "hash ! 0 = formatMarker"
    and "selector = field_at hash 1" and "selector = 1 \<or> selector = 2"
    and "iterations = field_at hash 5" and "saltLen = field_at hash 9"
    and "13 + saltLen \<le> int (length hash)"
    and "salt = take (nat saltLen) (drop 13 hash)"
    and "stored = drop (13 + nat saltLen) hash"
    and "saltSize h \<le> saltLen" and "keySize h \<le> int (length stored)"
  shows "hasher_Verify Key h pwd hash
     = (Key pwd salt iterations (int (length stored))
          (if selector = 1 then sha256_New else sha512_New) = stored)"
proof -
  let ?f = "if selector = 1 then sha256_New else sha512_New"
  have f: "alg (field_at hash 1) = Inr ?f"
    using assms(3,4) by (auto simp add: alg_Inr_iff)
  have sl: "0 \<le> field_at hash 9"
    by (rule field_at_nonneg)
  have l: "int (length stored) = int (length hash) - 13 - field_at hash 9"
    using assms(6,7,9) sl by simp
  have "hash \<noteq> []"
    using assms(1) by auto
  moreover have "\<not> length hash < 5" "\<not> length hash < 13"
    using assms(1) by simp_all
  moreover have "\<not> field_at hash 9 < saltSize h"
    using assms(6,10) by simp
  moreover have "\<not> int (length hash) < 13 + field_at hash 9"
    using assms(6,7) by simp
  moreover have "\<not> int (length hash) - 13 - field_at hash 9 < keySize h"
    using assms(11) l by simp
  ultimately have "Verify_body Key h pwd hash =
     Inr (Key pwd (take (nat (field_at hash 9)) (drop 13 hash)) (field_at hash 5)
            (int (length hash) - 13 - field_at hash 9) ?f
          = drop (13 + nat (field_at hash 9)) hash)"
    unfolding Verify_body_eq f using assms(2) by simp
  then show ?thesis
    unfolding hasher_Verify_def l using assms(5,6,8,9) by simp
qed

text \<open>
  Witness of C4: hashes with a 2-byte salt, 1000 iterations and a 3-byte sub-key, verified
  by hashers configured with 5 iterations, a 1-byte salt, a 2-byte key and the other hash
  key. The sample key-derivation function gives 228 under SHA-256 and 229 under SHA-512:
  the hash with key 1 and sub-key 228 verifies, the hash with key 2 verifies with sub-key
  229 and fails with sub-key 228.
\<close>

theorem Verify_rederives_from_header_witness:
  "hasher_Verify sample_Key \<lparr>iterCnt = 5, saltSize = 1, keySize = 2, hashKey = 2\<rparr> [112, 119]
      [1, 0, 0, 0, 1, 0, 0, 3, 232, 0, 0, 0, 2, 7, 9, 228, 228, 228] = True \<and>
   hasher_Verify sample_Key \<lparr>iterCnt = 5, saltSize = 1, keySize = 2, hashKey = 1\<rparr> [112, 119]
      [1, 0, 0, 0, 2, 0, 0, 3, 232, 0, 0, 0, 2, 7, 9, 229, 229, 229] = True \<and>
   hasher_Verify sample_Key \<lparr>iterCnt = 5, saltSize = 1, keySize = 2, hashKey = 1\<rparr> [112, 119]
      [1, 0, 0, 0, 2, 0, 0, 3, 232, 0, 0, 0, 2, 7, 9, 228, 228, 228] = False \<and>
   sample_Key [112, 119] [7, 9] 1000 3 sha256_New = [228, 228, 228] \<and>
   sample_Key [112, 119] [7, 9] 1000 3 sha512_New = [229, 229, 229]"
proof -
  have k1: "sample_Key [112, 119] [7, 9] 1000 3 sha256_New = [228, 228, 228]"
    by code_simp
  have k2: "sample_Key [112, 119] [7, 9] 1000 3 sha512_New = [229, 229, 229]"
    by code_simp
  have 1: "hasher_Verify sample_Key \<lparr>iterCnt = 5, saltSize = 1, keySize = 2, hashKey = 2\<rparr> [112, 119]
      [1, 0, 0, 0, 1, 0, 0, 3, 232, 0, 0, 0, 2, 7, 9, 228, 228, 228]
     = (sample_Key [112, 119] [7, 9] 1000 (int (length [228, 228, 228 :: byte]))
          (if (1::int) = 1 then sha256_New else sha512_New) = [228, 228, 228])"
    by (rule Verify_rederives_from_header [where selector = 1 and saltLen = 2])
       (simp_all add: formatMarker_def field_at_def big_endian_def)
  have 2: "hasher_Verify sample_Key \<lparr>iterCnt = 5, saltSize = 1, keySize = 2, hashKey = 1\<rparr> [112, 119]
      [1, 0, 0, 0, 2, 0, 0, 3, 232, 0, 0, 0, 2, 7, 9, 229, 229, 229]
     = (sample_Key [112, 119] [7, 9] 1000 (int (length [229, 229, 229 :: byte]))
          (if (2::int) = 1 then sha256_New else sha512_New) = [229, 229, 229])"
    by (rule Verify_rederives_from_header [where selector = 2 and saltLen = 2])
       (simp_all add: formatMarker_def field_at_def big_endian_def)
  have 3: "hasher_Verify sample_Key \<lparr>iterCnt = 5, saltSize = 1, keySize = 2, hashKey = 1\<rparr> [112, 119]
      [1, 0, 0, 0, 2, 0, 0, 3, 232, 0, 0, 0, 2, 7, 9, 228, 228, 228]
     = (sample_Key [112, 119] [7, 9] 1000 (int (length [228, 228, 228 :: byte]))
          (if (2::int) = 1 then sha256_New else sha512_New) = [228, 228, 228])"
    by (rule Verify_rederives_from_header [where selector = 2 and saltLen = 2])
       (simp_all add: formatMarker_def field_at_def big_endian_def)
  show ?thesis
    using 1 2 3 by (simp add: k1 k2)
qed

section \<open>The floor checks of Verify (claim C5)\<close>



section \<open>The errors of New (claim C6)\<close>

text \<open>
  Claim C6, as amended. \<^verbatim>\<open>New\<close> checks the iteration count, then the salt size, then the
  key size, and returns the error of the first check that fails: the iteration-count error
  exactly when the iteration count is below 1; the salt-size error exactly when the
  iteration count is at least 1 and the salt bit size is not a positive multiple of 8; the
  key-size error exactly when the first two are valid and the key bit size is not a
  positive multiple of 8. With an error the hasher returned is nil; without one the byte
  sizes stored are the bit sizes divided by 8, exactly.
\<close>

theorem New_errors:
  "(snd (New iterCtn saltBits keyBits key) = Some ErrInvalidIterationCount \<longleftrightarrow> iterCtn < 1) \<and>
   (snd (New iterCtn saltBits keyBits key) = Some ErrInvalidSaltSize \<longleftrightarrow>
      1 \<le> iterCtn \<and> (saltBits \<le> 0 \<or> \<not> 8 dvd saltBits)) \<and>
   (snd (New iterCtn saltBits keyBits key) = Some ErrInvalidKeySize \<longleftrightarrow>
      1 \<le> iterCtn \<and> 0 < saltBits \<and> 8 dvd saltBits \<and> (keyBits \<le> 0 \<or> \<not> 8 dvd keyBits)) \<and>
   (snd (New iterCtn saltBits keyBits key) \<noteq> None \<longrightarrow> fst (New iterCtn saltBits keyBits key) = None) \<and>
   (snd (New iterCtn saltBits keyBits key) = None \<longrightarrow>
      fst (New iterCtn saltBits keyBits key) =
        Some \<lparr>iterCnt = iterCtn, saltSize = saltBits sdiv 8, keySize = keyBits sdiv 8, hashKey = key\<rparr>
      \<and> saltBits sdiv 8 * 8 = saltBits \<and> keyBits sdiv 8 * 8 = keyBits)"
  by (auto simp add: New_eq sdiv_pos)

text \<open>Witness of C6: the configurations of the repository's test \<^verbatim>\<open>TestNew\<close>.\<close>

theorem New_errors_witness:
  "snd (New 1000 14 256 HashSHA256) = Some ErrInvalidSaltSize \<and>
   snd (New 1000 128 (-1) HashSHA256) = Some ErrInvalidKeySize \<and>
   snd (New 0 128 256 HashSHA256) = Some ErrInvalidIterationCount \<and>
   fst (New 1000 14 256 HashSHA256) = None \<and>
   fst (New 1000 128 256 HashSHA256) =
     Some \<lparr>iterCnt = 1000, saltSize = 16, keySize = 32, hashKey = HashSHA256\<rparr>"
  using New_errors [of 1000 14 256 HashSHA256] New_errors [of 1000 128 "-1" HashSHA256]
    New_errors [of 0 128 256 HashSHA256] New_errors [of 1000 128 256 HashSHA256]
  by (simp add: New_def)

text \<open>
  Counterexample to C6 as stated: \<^verbatim>\<open>New(0, 14, 256, HashSHA256)\<close> has a salt size that is
  not a multiple of 8, and the error returned is the iteration-count error, not the
  salt-size error.
\<close>

theorem New_first_error_only:
  "snd (New 0 14 256 HashSHA256) = Some ErrInvalidIterationCount \<and> \<not> 8 dvd (14 :: int)"
  by (simp add: New_def)

section \<open>Unknown hash key in Verify (claim C7)\<close>

text \<open>
  Claim C7. For every encoded hash whose hash-key field at offset 1 is neither 1 nor 2,
  \<^verbatim>\<open>Verify\<close> returns false: with the format marker in place the body panics in \<^verbatim>\<open>alg\<close>,
  and the deferred function recovers the panic.
\<close>

theorem Verify_unsupported_hash_key:
  assumes "5 \<le> length hash"
    and "field_at hash 1 \<noteq> HashSHA256" and "field_at hash 1 \<noteq> HashSHA512"
  shows "hasher_Verify Key h pwd hash = False \<and>
    (hash ! 0 = formatMarker \<longrightarrow>
       Verify_body Key h pwd hash = Inl (UnsupportedHashKey (field_at hash 1)))"
proof -
  have "alg (field_at hash 1) = Inl (UnsupportedHashKey (field_at hash 1))"
    using assms by (simp add: alg_def)
  then show ?thesis
    using assms(1) by (auto simp add: hasher_Verify_def Verify_body_eq)
qed

text \<open>
  Witness of C7: a hash whose hash-key field holds 237.
\<close>

theorem Verify_unsupported_hash_key_witness:
  "hasher_Verify sample_Key \<lparr>iterCnt = 1000, saltSize = 1, keySize = 1, hashKey = 1\<rparr> [112, 119]
      [1, 0, 0, 0, 237, 0, 0, 3, 232, 0, 0, 0, 1, 7, 9] = False \<and>
   Verify_body sample_Key \<lparr>iterCnt = 1000, saltSize = 1, keySize = 1, hashKey = 1\<rparr> [112, 119]
      [1, 0, 0, 0, 237, 0, 0, 3, 232, 0, 0, 0, 1, 7, 9] = Inl (UnsupportedHashKey 237)"
  using Verify_unsupported_hash_key [of "[1, 0, 0, 0, 237, 0, 0, 3, 232, 0, 0, 0, 1, 7, 9]"
      sample_Key "\<lparr>iterCnt = 1000, saltSize = 1, keySize = 1, hashKey = 1\<rparr>" "[112, 119]"]
  by (simp add: formatMarker_def HashSHA256_def HashSHA512_def field_at_def big_endian_def)

section \<open>Hash and a failed entropy source (claim C8)\<close>

text \<open>
  Claim C8 at its failing input. The entropy source delivers no byte, so \<^verbatim>\<open>rand.Read\<close>
  reads 0 of 16 bytes and returns a non-nil error. \<^verbatim>\<open>Hash\<close> drops both results: it returns
  a 61-byte hash whose salt is the 16 zero bytes of the fresh buffer and whose sub-key is
  derived from that salt, and reports nothing.
\<close>

theorem Hash_ignores_entropy_failure:
  "rand_Read failed_src (replicate 16 0) = (replicate 16 0, 0, True) \<and>
   hasher_Hash sample_Key failed_src \<lparr>iterCnt = 1000, saltSize = 16, keySize = 32, hashKey = 1\<rparr>
      [112, 119]
     = Inr ([1, 0, 0, 0, 1, 0, 0, 3, 232, 0, 0, 0, 16] @ replicate 16 0
            @ sample_Key [112, 119] (replicate 16 0) 1000 32 sha256_New)"
proof -
  have r: "rand_Read failed_src (replicate 16 0) = (replicate 16 0, 0, True)"
    by (simp add: rand_Read_def failed_src_def)
  have f: "alg 1 = Inr sha256_New"
    by (simp add: alg_def HashSHA256_def)
  have e: "encode32 1 = [0, 0, 0, 1]" "encode32 1000 = [0, 0, 3, 232]" "encode32 16 = [0, 0, 0, 16]"
    by (simp_all add: encode32_def to_byte_def drop_bit_eq_div)
  have h: "hasher_Hash sample_Key failed_src \<lparr>iterCnt = 1000, saltSize = 16, keySize = 32, hashKey = 1\<rparr>
      [112, 119]
     = Inr ([1, 0, 0, 0, 1, 0, 0, 3, 232, 0, 0, 0, 16] @ replicate 16 0
            @ sample_Key [112, 119] (replicate 16 0) 1000 32 sha256_New)"
    using hasher_Hash_eq [of "\<lparr>iterCnt = 1000, saltSize = 16, keySize = 32, hashKey = 1\<rparr>"
         sha256_New "replicate 16 0" failed_src
         "sample_Key [112, 119] (replicate 16 0) 1000 32 sha256_New" sample_Key "[112, 119]"] f r
    by (simp add: e formatMarker_def length_sample_Key)
  show ?thesis
    using r h by simp
qed

section \<open>The default hasher (claim C9)\<close>

text \<open>
  Claim C9. The default hasher is the one \<^verbatim>\<open>New(1000, 128, 256, HashSHA256)\<close> returns, and
  the package-level \<^verbatim>\<open>Hash\<close> and \<^verbatim>\<open>Verify\<close> return, for every password, hash and entropy,
  what that hasher's \<^verbatim>\<open>Hash\<close> and \<^verbatim>\<open>Verify\<close> return.
\<close>

theorem default_hasher:
  "\<exists>h. New 1000 128 256 HashSHA256 = (Some h, None) \<and> defaultHasher = Some h \<and>
     Hash Key src pwd = hasher_Hash Key src h pwd \<and>
     Verify Key pwd hash = Inr (hasher_Verify Key h pwd hash)"
  by (simp add: Hash_def Verify_def defaultHasher_def New_def DefaultIterationCount_def
      DefaultSaltSize_def DefaultKeySize_def DefaultHashKey_def)

text \<open>
  Witness of C9: the password \<^verbatim>\<open>"pw"\<close> and a 3-byte hash.
\<close>

theorem default_hasher_witness:
  "\<exists>h. New 1000 128 256 HashSHA256 = (Some h, None) \<and> defaultHasher = Some h \<and>
     Hash sample_Key sample_src [112, 119] = hasher_Hash sample_Key sample_src h [112, 119] \<and>
     Verify sample_Key [112, 119] [1, 0, 0] = Inr (hasher_Verify sample_Key h [112, 119] [1, 0, 0])"
  by (rule default_hasher)

section \<open>Unknown hash key in New and Hash (claim C10)\<close>

text \<open>
  Claim C10. \<^verbatim>\<open>New\<close> does not check the hash key: with a valid iteration count, salt
  size and key size and a hash key other than 1 and 2 it returns a hasher and no error,
  and \<^verbatim>\<open>Hash\<close> of that hasher panics in \<^verbatim>\<open>alg\<close>; nothing recovers the panic.
\<close>

theorem Hash_panics_on_unknown_hash_key:
  assumes "1 \<le> iterCtn" and "0 < saltBits" and "8 dvd saltBits"
    and "0 < keyBits" and "8 dvd keyBits"
    and "key \<noteq> HashSHA256" and "key \<noteq> HashSHA512"
  shows "\<exists>h. New iterCtn saltBits keyBits key = (Some h, None) \<and>
     hasher_Hash Key src h pwd = Inl (UnsupportedHashKey key)"
proof -
  have "alg key = Inl (UnsupportedHashKey key)"
    using assms(6,7) by (simp add: alg_def)
  moreover have "0 \<le> saltBits div 8"
    using assms(2) by simp
  ultimately show ?thesis
    using assms(1-5) by (simp add: New_eq hasher_Hash_def make_nonneg)
qed

text \<open>
  Witness of C10: the hash key 237 of the repository's test \<^verbatim>\<open>TestAlg\<close>.
\<close>

theorem Hash_panics_on_unknown_hash_key_witness:
  "\<exists>h. New 1000 128 256 237 = (Some h, None) \<and>
     hasher_Hash sample_Key sample_src h [112, 119] = Inl (UnsupportedHashKey 237)"
  using Hash_panics_on_unknown_hash_key [of 1000 128 256 237 sample_Key sample_src "[112, 119]"]
  by (simp add: HashSHA256_def HashSHA512_def)

section \<open>Verification across configurations\<close>

text \<open>
  Beyond the claims: downgrade rejection and upgrade tolerance on the hashes the code
  produces, as the repository's test \<^verbatim>\<open>TestVerify\<close> exercises them. A hash produced by a
  hasher of \<^verbatim>\<open>New\<close> (one of the two hash keys, iteration count below \<open>2^32\<close>, salt size
  below \<open>2^35\<close> bits) verifies for the same password under a second hasher exactly when
  the second hasher's salt size and key size are at most those of the first; its iteration
  count and hash key play no part.
\<close>

theorem Verify_across_configurations:
  assumes "New iterCtn saltBits keyBits key = (Some h, None)"
    and "key = HashSHA256 \<or> key = HashSHA512"
    and "iterCtn < 4294967296"
    and "saltBits < 34359738368"
    and "\<And>p s i n f. length (Key p s i n f) = nat n"
  shows "Hash_then_Verify Key src h h' pwd
     = Inr (saltSize h' \<le> saltSize h \<and> keySize h' \<le> keySize h)"
proof -
  from assms(2) obtain f where f: "alg key = Inr f"
    by (auto simp add: alg_Inr_iff HashSHA256_def HashSHA512_def)
  have "1 \<le> iterCtn"
    using New_Some(1) [OF assms(1)] .
  then have "take_bit 32 iterCtn = iterCtn"
    using assms(3) by (simp add: take_bit_int_eq_self)
  then show ?thesis
    using Hash_then_Verify_eq [OF assms(1) f assms(4) refl, of Key pwd src h'] assms(5) by simp
qed

text \<open>
  Witness: a hash with a 32-bit salt is rejected by the default hasher and accepted by a
  hasher that asks for a 16-bit salt, a 128-bit key, 15000 iterations and SHA-512.
\<close>

theorem Verify_across_configurations_witness:
  "New 1000 32 256 HashSHA256
     = (Some \<lparr>iterCnt = 1000, saltSize = 4, keySize = 32, hashKey = HashSHA256\<rparr>, None) \<and>
   Hash_then_Verify sample_Key sample_src
     \<lparr>iterCnt = 1000, saltSize = 4, keySize = 32, hashKey = HashSHA256\<rparr>
     \<lparr>iterCnt = 1000, saltSize = 16, keySize = 32, hashKey = HashSHA256\<rparr> [112, 119] = Inr False \<and>
   Hash_then_Verify sample_Key sample_src
     \<lparr>iterCnt = 1000, saltSize = 4, keySize = 32, hashKey = HashSHA256\<rparr>
     \<lparr>iterCnt = 15000, saltSize = 2, keySize = 16, hashKey = HashSHA512\<rparr> [112, 119] = Inr True"
proof -
  have n: "New 1000 32 256 HashSHA256
     = (Some \<lparr>iterCnt = 1000, saltSize = 4, keySize = 32, hashKey = HashSHA256\<rparr>, None)"
    by (simp add: New_def)
  show ?thesis
    using n
      Verify_across_configurations [where Key = sample_Key and src = sample_src and pwd = "[112, 119]"
        and h' = "\<lparr>iterCnt = 1000, saltSize = 16, keySize = 32, hashKey = HashSHA256\<rparr>",
        OF n _ _ _ length_sample_Key]
      Verify_across_configurations [where Key = sample_Key and src = sample_src and pwd = "[112, 119]"
        and h' = "\<lparr>iterCnt = 15000, saltSize = 2, keySize = 16, hashKey = HashSHA512\<rparr>",
        OF n _ _ _ length_sample_Key]
    by simp
qed

end
